theory Spec2Isabelle
  imports Main "HOL-Library.Sublist" "HOL-Library.Monad_Syntax"
begin

section \<open>Memento: text editor, mementos and history\<close>

text \<open>
  The Memento example has three classes. \<^verbatim>\<open>TextEditor\<close> (field \<^verbatim>\<open>text\<close>) and
  \<^verbatim>\<open>TextEditorMemento\<close> (field \<^verbatim>\<open>state\<close>) are objects that the client holds by
  reference, so they live in an explicit store: an object's reference is its index in
  the store and \<^verbatim>\<open>new\<close> appends an object. Both fields hold JavaScript strings, which
  are immutable primitive values, so a field is a \<open>string\<close>.

  A method takes the receiver \<^verbatim>\<open>this\<close> as its first argument. TypeScript's types
  guarantee that the receiver of an editor method is an editor and that the argument
  of \<^verbatim>\<open>restoreFromMemento\<close> is a memento; in the model a call on a reference of the
  wrong class (or on no object at all) yields \<open>None\<close>.
\<close>

type_synonym ref = nat

datatype obj = TextEditor string | TextEditorMemento string

type_synonym store = "obj list"

definition lookup :: "store \<Rightarrow> ref \<Rightarrow> obj option" where
  "lookup st r = (if r < length st then Some (st ! r) else None)"

definition alloc :: "obj \<Rightarrow> store \<Rightarrow> ref \<times> store" where
  "alloc ob st = (length st, st @ [ob])"

subsection \<open>TextEditorMemento\<close>

text \<open>\<^verbatim>\<open>constructor(state: string) { this.state = state; }\<close>\<close>

definition new_TextEditorMemento :: "string \<Rightarrow> store \<Rightarrow> ref \<times> store" where
  "new_TextEditorMemento state st = alloc (TextEditorMemento state) st"

text \<open>\<^verbatim>\<open>getState(): string { return this.state; }\<close>\<close>

definition getState :: "ref \<Rightarrow> store \<Rightarrow> string option" where
  "getState this st =
     (case lookup st this of Some (TextEditorMemento state) \<Rightarrow> Some state | _ \<Rightarrow> None)"

subsection \<open>TextEditor\<close>

text \<open>\<^verbatim>\<open>constructor() { this.text = ""; }\<close>\<close>

definition new_TextEditor :: "store \<Rightarrow> ref \<times> store" where
  "new_TextEditor st = alloc (TextEditor []) st"

text \<open>\<^verbatim>\<open>getText(): string { return this.text; }\<close>\<close>

definition getText :: "ref \<Rightarrow> store \<Rightarrow> string option" where
  "getText this st =
     (case lookup st this of Some (TextEditor txt) \<Rightarrow> Some txt | _ \<Rightarrow> None)"

text \<open>\<^verbatim>\<open>setText(text: string): void { this.text = text; }\<close>\<close>

definition setText :: "ref \<Rightarrow> string \<Rightarrow> store \<Rightarrow> store option" where
  "setText this txt st =
     (case lookup st this of
        Some (TextEditor _) \<Rightarrow> Some (st[this := TextEditor txt])
      | _ \<Rightarrow> None)"

text \<open>\<^verbatim>\<open>createMemento(): TextEditorMemento { return new TextEditorMemento(this.text); }\<close>\<close>

definition createMemento :: "ref \<Rightarrow> store \<Rightarrow> (ref \<times> store) option" where
  "createMemento this st =
     (case lookup st this of
        Some (TextEditor txt) \<Rightarrow> Some (new_TextEditorMemento txt st)
      | _ \<Rightarrow> None)"

text \<open>\<^verbatim>\<open>restoreFromMemento(memento): void { this.text = memento.getState(); }\<close>\<close>

definition restoreFromMemento :: "ref \<Rightarrow> ref \<Rightarrow> store \<Rightarrow> store option" where
  "restoreFromMemento this memento st =
     (case lookup st this of
        Some (TextEditor _) \<Rightarrow>
          (case getState memento st of
             Some state \<Rightarrow> Some (st[this := TextEditor state])
           | None \<Rightarrow> None)
      | _ \<Rightarrow> None)"

text \<open>
  Whatever a client does with editors and mementos is a sequence of these calls
  (\<^verbatim>\<open>getText\<close> and \<^verbatim>\<open>getState\<close> only read). A run stops at the first ill-typed call.
\<close>

datatype editor_call =
    NewTextEditor
  | SetText ref string
  | CreateMemento ref
  | RestoreFromMemento ref ref

fun editor_step :: "editor_call \<Rightarrow> store \<Rightarrow> store option" where
  "editor_step NewTextEditor st = Some (snd (new_TextEditor st))"
| "editor_step (SetText e txt) st = setText e txt st"
| "editor_step (CreateMemento e) st = map_option snd (createMemento e st)"
| "editor_step (RestoreFromMemento e m) st = restoreFromMemento e m st"

fun editor_run :: "editor_call list \<Rightarrow> store \<Rightarrow> store option" where
  "editor_run [] st = Some st"
| "editor_run (c # cs) st =
     (case editor_step c st of None \<Rightarrow> None | Some st' \<Rightarrow> editor_run cs st')"

subsection \<open>MyHistory\<close>

text \<open>
  The caretaker \<^verbatim>\<open>MyHistory\<close> has one field, \<^verbatim>\<open>private mementos: TextEditorMemento[] = []\<close>,
  an array of references to memento objects, and two methods, \<^verbatim>\<open>addMemento\<close> and
  \<^verbatim>\<open>getMemento\<close>. It keeps no cursor, has no method that removes an entry, and defines
  no undo, redo, current or clear operation and no error type: a caller goes back to
  an earlier state by reading a memento at an index of its choice. The history never
  reads the objects it stores, so it is passed as a value of its own, next to the
  store.
\<close>

record MyHistory =
  mementos :: "ref list"

definition new_MyHistory :: MyHistory where
  "new_MyHistory = \<lparr>mementos = []\<rparr>"

text \<open>\<^verbatim>\<open>addMemento(memento): void { this.mementos.push(memento); }\<close>\<close>

definition addMemento :: "ref \<Rightarrow> MyHistory \<Rightarrow> MyHistory" where
  "addMemento memento this = this\<lparr>mementos := mementos this @ [memento]\<rparr>"

text \<open>
  Reading \<^verbatim>\<open>a[i]\<close> from a JavaScript array with an integer \<open>i\<close> yields the element when
  \<open>0 \<le> i < a.length\<close> and \<^verbatim>\<open>undefined\<close> (here \<open>None\<close>) otherwise; it never throws.
\<close>

definition js_index :: "'a list \<Rightarrow> int \<Rightarrow> 'a option" where
  "js_index a i = (if 0 \<le> i \<and> i < int (length a) then Some (a ! nat i) else None)"

text \<open>\<^verbatim>\<open>getMemento(index: number) { return this.mementos[index]; }\<close>\<close>

definition getMemento :: "int \<Rightarrow> MyHistory \<Rightarrow> ref option" where
  "getMemento index this = js_index (mementos this) index"

text \<open>
  A call of a history method, what it returns, and its effect on the history.
  Neither method contains a \<^verbatim>\<open>throw\<close>, so the outcome of a call is always a value.
\<close>

datatype history_call = AddMemento ref | GetMemento int

datatype history_result = Void | Returned "ref option"

fun perform :: "history_call \<Rightarrow> MyHistory \<Rightarrow> history_result \<times> MyHistory" where
  "perform (AddMemento memento) h = (Void, addMemento memento h)"
| "perform (GetMemento index) h = (Returned (getMemento index h), h)"

text \<open>
  The client \<^verbatim>\<open>testTextEditorMemento\<close> creates an editor and a history, saves the
  states \<^verbatim>\<open>"Hello, "\<close> and \<^verbatim>\<open>"Hello, World!"\<close>, reads the memento at index 0 and, when
  there is one, restores the editor from it. Its value is what it prints.
\<close>

definition testTextEditorMemento :: "string list option" where
  "testTextEditorMemento = do {
     let (textEditor, st0) = new_TextEditor [];
     let history = new_MyHistory;
     st1 \<leftarrow> setText textEditor ''Hello, '' st0;
     (m1, st2) \<leftarrow> createMemento textEditor st1;
     let history = addMemento m1 history;
     st3 \<leftarrow> setText textEditor ''Hello, World!'' st2;
     (m2, st4) \<leftarrow> createMemento textEditor st3;
     let history = addMemento m2 history;
     (case getMemento 0 history of
        Some previousMemento \<Rightarrow> do {
          st5 \<leftarrow> restoreFromMemento textEditor previousMemento st4;
          restored \<leftarrow> getText textEditor st5;
          Some [''Restored state: '' @ restored]
        }
      | None \<Rightarrow> Some [''No previous state available.''])
   }"

text \<open>
  The specification (section 4.1) describes an operation \<^verbatim>\<open>save(snapshot)\<close> on a sequence
  of snapshots with a cursor \<^verbatim>\<open>position\<close>: it "discards all entries after the current
  cursor", "appends the snapshot" and "sets cursor to the new last index". The
  definition \<open>spec_save\<close> follows these words. It is not code of the repository; it
  is here to be compared with \<open>addMemento\<close>.
\<close>

definition spec_save :: "ref \<Rightarrow> ref list \<times> int \<Rightarrow> ref list \<times> int" where
  "spec_save snapshot h =
     (case h of (entries, position) \<Rightarrow>
        let entries' = take (nat (position + 1)) entries @ [snapshot]
        in (entries', int (length entries') - 1))"

section \<open>Mediator: the home automation mediator\<close>

text \<open>
  A component is an object of one of three classes. \<open>ident\<close> is the object's identity
  (what \<^verbatim>\<open>!==\<close> compares) and \<open>cls\<close> its class. \<^verbatim>\<open>receiveMessage\<close> writes one line to the
  console; so that delivery can be stated, the model also records every invocation of
  \<^verbatim>\<open>receiveMessage\<close> (receiver and argument) in \<open>deliveries\<close>, in the order of the calls.
\<close>

datatype component_class = Light | Thermostat | SecurityCamera

record Component =
  ident :: nat
  cls :: component_class

record home =
  console :: "string list"
  deliveries :: "(Component \<times> string) list"

text \<open>\<^verbatim>\<open>sender.constructor.name\<close>: the name of the sender's class.\<close>

fun constructor_name :: "Component \<Rightarrow> string" where
  "constructor_name c =
     (case cls c of Light \<Rightarrow> ''Light'' | Thermostat \<Rightarrow> ''Thermostat''
      | SecurityCamera \<Rightarrow> ''SecurityCamera'')"

text \<open>
  \<^verbatim>\<open>receiveMessage(message) { console.log(`Light received message: ${message}`); }\<close>
  and likewise with \<^verbatim>\<open>Thermostat\<close> and \<^verbatim>\<open>Security Camera\<close> in the other two classes.
\<close>

fun receiveMessage :: "Component \<Rightarrow> string \<Rightarrow> home \<Rightarrow> home" where
  "receiveMessage this message w =
     w\<lparr>console := console w @
          [(case cls this of Light \<Rightarrow> ''Light'' | Thermostat \<Rightarrow> ''Thermostat''
            | SecurityCamera \<Rightarrow> ''Security Camera'') @ '' received message: '' @ message],
       deliveries := deliveries w @ [(this, message)]\<rparr>"

text \<open>\<^verbatim>\<open>private components: Component[] = []\<close>\<close>

record ConcreteHomeAutomationMediator =
  components :: "Component list"

definition new_ConcreteHomeAutomationMediator :: ConcreteHomeAutomationMediator where
  "new_ConcreteHomeAutomationMediator = \<lparr>components = []\<rparr>"

text \<open>\<^verbatim>\<open>addComponent(component): void { this.components.push(component); }\<close>\<close>

definition addComponent ::
  "Component \<Rightarrow> ConcreteHomeAutomationMediator \<Rightarrow> ConcreteHomeAutomationMediator" where
  "addComponent component this = this\<lparr>components := components this @ [component]\<rparr>"

text \<open>
  \<^verbatim>\<open>sendMessage(sender, message) {
    for (const component of this.components) {
      if (component !== sender) {
        component.receiveMessage(`${sender.constructor.name}: ${message}`);
      }
    }
  }\<close>
  The loop runs over the array from its first element; \<open>sendMessage_loop\<close> is the
  loop on the elements still to visit.
\<close>

fun sendMessage_loop :: "Component list \<Rightarrow> Component \<Rightarrow> string \<Rightarrow> home \<Rightarrow> home" where
  "sendMessage_loop [] sender message w = w"
| "sendMessage_loop (component # rest) sender message w =
     sendMessage_loop rest sender message
       (if ident component \<noteq> ident sender
        then receiveMessage component (constructor_name sender @ '': '' @ message) w
        else w)"

definition sendMessage ::
  "Component \<Rightarrow> string \<Rightarrow> ConcreteHomeAutomationMediator \<Rightarrow> home \<Rightarrow> home" where
  "sendMessage sender message this w = sendMessage_loop (components this) sender message w"

section \<open>Singleton: the logger\<close>

text \<open>
  \<^verbatim>\<open>private static instance: Logger | null = null\<close> is the only state of the class.
  The world of the example is this static field, the number of \<^verbatim>\<open>Logger\<close> objects
  constructed so far, and the console. The constructor is private, so \<^verbatim>\<open>getInstance\<close>
  is the only place that can run it. The \<open>n\<close>-th object constructed gets the reference
  \<open>n\<close> (counting from 0), which no earlier object has.
\<close>

record logger_world =
  Logger_instance :: "ref option"
  constructed :: nat
  log_lines :: "string list"

definition initial_world :: logger_world where
  "initial_world = \<lparr>Logger_instance = None, constructed = 0, log_lines = []\<rparr>"

text \<open>\<^verbatim>\<open>new Logger()\<close>: the constructor body is empty.\<close>

definition new_Logger :: "logger_world \<Rightarrow> ref \<times> logger_world" where
  "new_Logger w = (constructed w, w\<lparr>constructed := Suc (constructed w)\<rparr>)"

text \<open>
  \<^verbatim>\<open>static getInstance(): Logger {
    if (!Logger.instance) { Logger.instance = new Logger(); }
    return Logger.instance;
  }\<close>
  An object reference is truthy, so \<^verbatim>\<open>!Logger.instance\<close> holds exactly when the field
  is \<^verbatim>\<open>null\<close>.
\<close>

definition getInstance :: "logger_world \<Rightarrow> ref \<times> logger_world" where
  "getInstance w =
     (case Logger_instance w of
        None \<Rightarrow> (case new_Logger w of (r, w') \<Rightarrow> (r, w'\<lparr>Logger_instance := Some r\<rparr>))
      | Some r \<Rightarrow> (r, w))"

text \<open>\<^verbatim>\<open>log(message: string): void { console.log(`[LOG] ${message}`); }\<close>\<close>

definition log :: "ref \<Rightarrow> string \<Rightarrow> logger_world \<Rightarrow> logger_world" where
  "log this message w = w\<lparr>log_lines := log_lines w @ [''[LOG] '' @ message]\<rparr>"

text \<open>
  A single-threaded execution is a sequence of calls. \<open>logger_run\<close> returns the
  references that the \<^verbatim>\<open>getInstance\<close> calls of the sequence returned, in order, and the
  final world.
\<close>

datatype logger_call = GetInstance | Log ref string

fun logger_run :: "logger_call list \<Rightarrow> logger_world \<Rightarrow> ref list \<times> logger_world" where
  "logger_run [] w = ([], w)"
| "logger_run (GetInstance # cs) w =
     (case getInstance w of (r, w1) \<Rightarrow>
        (case logger_run cs w1 of (rs, w') \<Rightarrow> (r # rs, w')))"
| "logger_run (Log this message # cs) w = logger_run cs (log this message w)"

section \<open>Properties of the text editor and its mementos\<close>

lemma lookup_alloc_old:
  "alloc ob' st = (r', st') \<Longrightarrow> lookup st r = Some ob \<Longrightarrow> lookup st' r = Some ob"
  by (auto simp: lookup_def alloc_def nth_append split: if_splits)

lemma lookup_alloc_new: "alloc ob st = (r, st') \<Longrightarrow> lookup st' r = Some ob"
  by (auto simp: lookup_def alloc_def)

lemma lookup_update_same:
  "r < length st \<Longrightarrow> lookup (st[r := ob]) r = Some ob"
  by (simp add: lookup_def)

lemma lookup_update_other:
  "r \<noteq> r' \<Longrightarrow> lookup (st[r' := ob]) r = lookup st r"
  by (simp add: lookup_def)

text \<open>No call changes an existing memento.\<close>

lemma editor_step_keeps_memento:
  assumes "lookup st m = Some (TextEditorMemento s)" and "editor_step c st = Some st'"
  shows "lookup st' m = Some (TextEditorMemento s)"
proof (cases c)
  case NewTextEditor
  with assms show ?thesis
    by (auto simp: new_TextEditor_def intro: lookup_alloc_old [OF surjective_pairing])
next
  case (SetText e t')
  with assms have "e \<noteq> m"
    by (auto simp: setText_def split: option.splits obj.splits)
  with assms SetText show ?thesis
    by (auto simp: setText_def lookup_update_other split: option.splits obj.splits)
next
  case (CreateMemento e)
  with assms show ?thesis
    by (auto simp: createMemento_def new_TextEditorMemento_def split: option.splits obj.splits dest: lookup_alloc_old)
next
  case (RestoreFromMemento e m')
  with assms have "e \<noteq> m"
    by (auto simp: restoreFromMemento_def split: option.splits obj.splits)
  with assms RestoreFromMemento show ?thesis
    by (auto simp: restoreFromMemento_def lookup_update_other split: option.splits obj.splits)
qed

text \<open>No call turns an editor into anything else.\<close>

lemma editor_step_keeps_editor:
  assumes "lookup st e = Some (TextEditor t)" and "editor_step c st = Some st'"
  shows "\<exists>t'. lookup st' e = Some (TextEditor t')"
proof (cases c)
  case NewTextEditor
  with assms show ?thesis
    by (auto simp: new_TextEditor_def intro: lookup_alloc_old [OF surjective_pairing])
next
  case (SetText e' t')
  with assms show ?thesis
    by (cases "e' = e")
      (auto simp: setText_def lookup_def split: option.splits obj.splits if_splits)
next
  case (CreateMemento e')
  with assms show ?thesis
    by (auto simp: createMemento_def new_TextEditorMemento_def split: option.splits obj.splits dest: lookup_alloc_old)
next
  case (RestoreFromMemento e' m')
  with assms show ?thesis
    by (cases "e' = e")
      (auto simp: restoreFromMemento_def lookup_def split: option.splits obj.splits if_splits)
qed

lemma editor_run_keeps_memento:
  "lookup st m = Some (TextEditorMemento s) \<Longrightarrow> editor_run cs st = Some st' \<Longrightarrow>
   lookup st' m = Some (TextEditorMemento s)"
proof (induction cs arbitrary: st)
  case Nil
  then show ?case by simp
next
  case (Cons c cs)
  from Cons.prems(2) obtain st1 where
    step: "editor_step c st = Some st1" and rest: "editor_run cs st1 = Some st'"
    by (auto split: option.splits)
  from Cons.prems(1) step have "lookup st1 m = Some (TextEditorMemento s)"
    by (rule editor_step_keeps_memento)
  from this rest show ?case by (rule Cons.IH)
qed

lemma editor_run_keeps_editor:
  "lookup st e = Some (TextEditor t) \<Longrightarrow> editor_run cs st = Some st' \<Longrightarrow>
   \<exists>t'. lookup st' e = Some (TextEditor t')"
proof (induction cs arbitrary: st t)
  case Nil
  then show ?case by simp
next
  case (Cons c cs)
  from Cons.prems(2) obtain st1 where
    step: "editor_step c st = Some st1" and rest: "editor_run cs st1 = Some st'"
    by (auto split: option.splits)
  from Cons.prems(1) step obtain t1 where "lookup st1 e = Some (TextEditor t1)"
    using editor_step_keeps_editor by blast
  from this rest show ?case by (rule Cons.IH)
qed

text \<open>A sequence of \<^verbatim>\<open>setText\<close> calls on an editor always runs to the end.\<close>

lemma editor_run_setTexts:
  "lookup st e = Some (TextEditor t) \<Longrightarrow> \<exists>st'. editor_run (map (SetText e) ts) st = Some st'"
proof (induction ts arbitrary: st t)
  case Nil
  then show ?case by simp
next
  case (Cons a ts)
  from Cons.prems have len: "e < length st"
    by (simp add: lookup_def split: if_splits)
  have step: "setText e a st = Some (st[e := TextEditor a])"
    using Cons.prems by (simp add: setText_def)
  have "lookup (st[e := TextEditor a]) e = Some (TextEditor a)"
    using len by (rule lookup_update_same)
  then obtain st' where "editor_run (map (SetText e) ts) (st[e := TextEditor a]) = Some st'"
    using Cons.IH by blast
  with step show ?case by simp
qed

text \<open>
  Claim C9. Mementos round-trip the editor state and are immune to later edits. Let
  \<open>e\<close> be a text editor. After \<^verbatim>\<open>e.setText(t1)\<close> and \<^verbatim>\<open>m = e.createMemento()\<close> the
  memento \<open>m\<close> holds \<open>t1\<close>; any sequence of further \<^verbatim>\<open>setText\<close> calls on \<open>e\<close> runs to its
  end; and after any run \<open>cs\<close> of further calls whatsoever (\<^verbatim>\<open>setText\<close>, \<^verbatim>\<open>createMemento\<close>,
  \<^verbatim>\<open>restoreFromMemento\<close>, on this or on other editors) the state stored in \<open>m\<close> is still
  \<open>t1\<close>, \<^verbatim>\<open>e.restoreFromMemento(m)\<close> succeeds, \<^verbatim>\<open>e.getText()\<close> then returns \<open>t1\<close>, and \<open>m\<close>
  still holds \<open>t1\<close>.
\<close>

theorem memento_round_trip:
  assumes ed: "lookup st e = Some (TextEditor t0)"
  shows "\<exists>st1 m st2.
    setText e t1 st = Some st1 \<and>
    createMemento e st1 = Some (m, st2) \<and>
    getState m st2 = Some t1 \<and>
    (\<exists>st3. editor_run (map (SetText e) ts) st2 = Some st3) \<and>
    (\<forall>cs st3. editor_run cs st2 = Some st3 \<longrightarrow>
       getState m st3 = Some t1 \<and>
       (\<exists>st4. restoreFromMemento e m st3 = Some st4 \<and>
              getText e st4 = Some t1 \<and> getState m st4 = Some t1))"
proof -
  define st1 where "st1 = st[e := TextEditor t1]"
  define m where "m = length st1"
  define st2 where "st2 = st1 @ [TextEditorMemento t1]"
  from ed have len: "e < length st"
    by (simp add: lookup_def split: if_splits)
  have set: "setText e t1 st = Some st1"
    using ed by (simp add: setText_def st1_def)
  have ed1: "lookup st1 e = Some (TextEditor t1)"
    unfolding st1_def using len by (rule lookup_update_same)
  have al: "alloc (TextEditorMemento t1) st1 = (m, st2)"
    by (simp add: alloc_def m_def st2_def)
  have create: "createMemento e st1 = Some (m, st2)"
    using ed1 al by (simp add: createMemento_def new_TextEditorMemento_def)
  have mem2: "lookup st2 m = Some (TextEditorMemento t1)"
    using al by (rule lookup_alloc_new)
  have ed2: "lookup st2 e = Some (TextEditor t1)"
    using al ed1 by (rule lookup_alloc_old)
  have state2: "getState m st2 = Some t1"
    using mem2 by (simp add: getState_def)
  have sets: "\<exists>st3. editor_run (map (SetText e) ts) st2 = Some st3"
    using ed2 by (rule editor_run_setTexts)
  have later: "getState m st3 = Some t1 \<and>
       (\<exists>st4. restoreFromMemento e m st3 = Some st4 \<and>
              getText e st4 = Some t1 \<and> getState m st4 = Some t1)"
    if run: "editor_run cs st2 = Some st3" for cs st3
  proof -
    from mem2 run have mem3: "lookup st3 m = Some (TextEditorMemento t1)"
      by (rule editor_run_keeps_memento)
    from ed2 run obtain t' where ed3: "lookup st3 e = Some (TextEditor t')"
      using editor_run_keeps_editor by blast
    from mem3 ed3 have neq: "m \<noteq> e" by auto
    from ed3 have len3: "e < length st3"
      by (simp add: lookup_def split: if_splits)
    have state3: "getState m st3 = Some t1"
      using mem3 by (simp add: getState_def)
    have restore: "restoreFromMemento e m st3 = Some (st3[e := TextEditor t1])"
      using ed3 state3 by (simp add: restoreFromMemento_def)
    have "lookup (st3[e := TextEditor t1]) e = Some (TextEditor t1)"
      using len3 by (rule lookup_update_same)
    then have text4: "getText e (st3[e := TextEditor t1]) = Some t1"
      by (simp add: getText_def)
    have "lookup (st3[e := TextEditor t1]) m = Some (TextEditorMemento t1)"
      using neq mem3 by (simp add: lookup_update_other)
    then have state4: "getState m (st3[e := TextEditor t1]) = Some t1"
      by (simp add: getState_def)
    from state3 restore text4 state4 show ?thesis by blast
  qed
  from set create state2 sets later show ?thesis by blast
qed

theorem memento_round_trip_witness:
  "lookup [TextEditor []] 0 = Some (TextEditor []) \<and>
   setText 0 ''Hello, '' [TextEditor []] = Some [TextEditor ''Hello, ''] \<and>
   createMemento 0 [TextEditor ''Hello, ''] =
     Some (1, [TextEditor ''Hello, '', TextEditorMemento ''Hello, '']) \<and>
   editor_run [SetText 0 ''Hello, World!''] [TextEditor ''Hello, '', TextEditorMemento ''Hello, ''] =
     Some [TextEditor ''Hello, World!'', TextEditorMemento ''Hello, ''] \<and>
   restoreFromMemento 0 1 [TextEditor ''Hello, World!'', TextEditorMemento ''Hello, ''] =
     Some [TextEditor ''Hello, '', TextEditorMemento ''Hello, ''] \<and>
   getText 0 [TextEditor ''Hello, '', TextEditorMemento ''Hello, ''] = Some ''Hello, '' \<and>
   getState 1 [TextEditor ''Hello, '', TextEditorMemento ''Hello, ''] = Some ''Hello, ''"
proof -
  have ed: "lookup [TextEditor []] 0 = Some (TextEditor [])"
    by (simp add: lookup_def)
  note memento_round_trip [OF ed, where ?t1.0 = "''Hello, ''" and ts = "[''Hello, World!'']"]
  then show ?thesis
    by (simp add: lookup_def setText_def createMemento_def new_TextEditorMemento_def alloc_def restoreFromMemento_def getText_def getState_def)
qed

section \<open>Properties of the history\<close>

lemma mementos_addMemento: "mementos (addMemento s h) = mementos h @ [s]"
  by (simp add: addMemento_def)

lemma getMemento_in_range:
  "0 \<le> i \<Longrightarrow> i < int (length (mementos h)) \<Longrightarrow> getMemento i h = Some (mementos h ! nat i)"
  by (simp add: getMemento_def js_index_def)

lemma getMemento_out_of_range:
  "i < 0 \<or> int (length (mementos h)) \<le> i \<Longrightarrow> getMemento i h = None"
  by (auto simp: getMemento_def js_index_def)

lemma getMemento_addMemento_old:
  assumes "0 \<le> i" and "i < int (length (mementos h))"
  shows "getMemento i (addMemento s h) = getMemento i h"
proof -
  from assms have "nat i < length (mementos h)" by linarith
  then have "(mementos h @ [s]) ! nat i = mementos h ! nat i"
    by (simp add: nth_append)
  with assms show ?thesis
    by (simp add: getMemento_def js_index_def mementos_addMemento)
qed

lemma getMemento_addMemento_new:
  "getMemento (int (length (mementos h))) (addMemento s h) = Some s"
  by (simp add: getMemento_def js_index_def mementos_addMemento)

text \<open>
  After the mementos \<open>ss\<close> have been added to a new history, in this order, index \<open>i\<close>
  holds the \<open>i\<close>-th of them and the last index holds the last one.
\<close>

lemma mementos_fold_addMemento:
  "mementos (fold addMemento ss h) = mementos h @ ss"
  by (induction ss arbitrary: h) (simp_all add: addMemento_def)

lemma getMemento_after_adds:
  assumes "i < length ss"
  shows "getMemento (int i) (fold addMemento ss new_MyHistory) = Some (ss ! i)"
  using assms by (simp add: getMemento_def js_index_def mementos_fold_addMemento new_MyHistory_def)

lemma getMemento_last_added:
  assumes "ss \<noteq> []"
  shows "getMemento (int (length ss) - 1) (fold addMemento ss new_MyHistory) = Some (last ss)"
proof -
  from assms have idx: "int (length ss - 1) = int (length ss) - 1"
    by (cases ss) simp_all
  from assms have "length ss - 1 < length ss" by simp
  then have "getMemento (int (length ss - 1)) (fold addMemento ss new_MyHistory) =
      Some (ss ! (length ss - 1))"
    by (rule getMemento_after_adds)
  with assms idx show ?thesis by (simp add: last_conv_nth)
qed

text \<open>The client prints the first saved state.\<close>

lemma testTextEditorMemento_output:
  "testTextEditorMemento = Some [''Restored state: Hello, '']"
  by (simp add: testTextEditorMemento_def new_TextEditor_def alloc_def new_MyHistory_def
      setText_def lookup_def createMemento_def new_TextEditorMemento_def addMemento_def
      getMemento_def js_index_def restoreFromMemento_def getState_def getText_def)

text \<open>
  Claim C8. For every history and every integer index \<open>i\<close>, \<^verbatim>\<open>getMemento(i)\<close> returns a
  value and leaves the history as it was: the call returns the memento stored at index
  \<open>i\<close> when \<open>0 \<le> i < length\<close>, and \<^verbatim>\<open>undefined\<close> for every other \<open>i\<close>, negative or at least
  the length.
\<close>

theorem getMemento_total:
  "perform (GetMemento i) h = (Returned (getMemento i h), h) \<and>
   (0 \<le> i \<and> i < int (length (mementos h)) \<longrightarrow> getMemento i h = Some (mementos h ! nat i)) \<and>
   (i < 0 \<or> int (length (mementos h)) \<le> i \<longrightarrow> getMemento i h = None)"
  using getMemento_in_range [of i h] getMemento_out_of_range [of i h] by simp

theorem getMemento_total_witness:
  "perform (GetMemento 1) (addMemento 8 (addMemento 7 new_MyHistory)) =
     (Returned (Some 8), addMemento 8 (addMemento 7 new_MyHistory)) \<and>
   perform (GetMemento 2) (addMemento 8 (addMemento 7 new_MyHistory)) =
     (Returned None, addMemento 8 (addMemento 7 new_MyHistory)) \<and>
   perform (GetMemento (- 1)) (addMemento 8 (addMemento 7 new_MyHistory)) =
     (Returned None, addMemento 8 (addMemento 7 new_MyHistory)) \<and>
   getMemento 0 (addMemento 8 (addMemento 7 new_MyHistory)) = Some 7"
  using getMemento_total [of 1 "addMemento 8 (addMemento 7 new_MyHistory)"]
    getMemento_total [of 2 "addMemento 8 (addMemento 7 new_MyHistory)"]
    getMemento_total [of "- 1" "addMemento 8 (addMemento 7 new_MyHistory)"]
    getMemento_total [of 0 "addMemento 8 (addMemento 7 new_MyHistory)"]
  by (simp add: mementos_addMemento new_MyHistory_def)

text \<open>
  Claim C5. Every operation of the history appends at the tail of the sequence or
  leaves the sequence unchanged (the code has no operation that truncates), and never
  reorders it: the old sequence is a prefix of the new one, and every index of the
  old sequence holds the same memento after the operation.
\<close>

theorem history_call_keeps_order:
  assumes "perform c h = (r, h')"
  shows "prefix (mementos h) (mementos h') \<and>
    (mementos h' = mementos h \<or> (\<exists>s. mementos h' = mementos h @ [s])) \<and>
    (\<forall>i. 0 \<le> i \<and> i < int (length (mementos h)) \<longrightarrow> getMemento i h' = getMemento i h)"
proof (cases c)
  case (AddMemento s)
  with assms have "h' = addMemento s h" by simp
  then show ?thesis
    by (simp add: mementos_addMemento getMemento_addMemento_old)
next
  case (GetMemento i)
  with assms have "h' = h" by simp
  then show ?thesis by simp
qed

theorem history_call_keeps_order_witness:
  "perform (AddMemento 9) (addMemento 8 (addMemento 7 new_MyHistory)) =
     (Void, \<lparr>mementos = [7, 8, 9]\<rparr>) \<and>
   prefix (mementos (addMemento 8 (addMemento 7 new_MyHistory))) (mementos \<lparr>mementos = [7, 8, 9]\<rparr>) \<and>
   getMemento 1 \<lparr>mementos = [7, 8, 9]\<rparr> = getMemento 1 (addMemento 8 (addMemento 7 new_MyHistory))"
proof -
  have p: "perform (AddMemento 9) (addMemento 8 (addMemento 7 new_MyHistory)) =
     (Void, \<lparr>mementos = [7, 8, 9]\<rparr>)"
    by (simp add: addMemento_def new_MyHistory_def)
  from history_call_keeps_order [OF p] p show ?thesis
    by (simp add: mementos_addMemento new_MyHistory_def)
qed

text \<open>
  Claim C3, as the specification states it: when the cursor is not at the last index,
  \<^verbatim>\<open>save(sNew)\<close> removes every snapshot at an index greater than the cursor before it
  appends. \<^verbatim>\<open>addMemento\<close> does not: with the mementos \<open>1\<close> and \<open>2\<close> stored and the caller's
  cursor at index \<open>0\<close>, adding \<open>3\<close> gives the sequence \<open>1, 2, 3\<close>, and index \<open>1\<close> still holds
  \<open>2\<close>, where the specification's \<^verbatim>\<open>save\<close> gives \<open>1, 3\<close>.
\<close>

theorem addMemento_discards_counterexample:
  "mementos (addMemento 3 (addMemento 2 (addMemento 1 new_MyHistory))) = [1, 2, 3] \<and>
   getMemento 1 (addMemento 3 (addMemento 2 (addMemento 1 new_MyHistory))) = Some 2 \<and>
   spec_save 3 (mementos (addMemento 2 (addMemento 1 new_MyHistory)), 0) = ([1, 3], 1)"
  by (simp add: addMemento_def new_MyHistory_def getMemento_def js_index_def spec_save_def)

lemma spec_save_at_end:
  "spec_save s (xs, int (length xs) - 1) = (xs @ [s], int (length xs))"
  by (simp add: spec_save_def Let_def)

lemma spec_save_length:
  "- 1 \<le> position \<Longrightarrow> position < int (length xs) \<Longrightarrow>
   int (length (fst (spec_save s (xs, position)))) = position + 2"
  by (simp add: spec_save_def Let_def)

text \<open>
  Claim C3, amended. \<^verbatim>\<open>addMemento(sNew)\<close> removes nothing: every index of the old sequence
  holds the same memento afterwards, \<open>sNew\<close> is at the old length, which is the new last
  index. For a cursor \<open>position\<close> between \<open>-1\<close> and the last index, the result is the
  sequence of the specification's \<^verbatim>\<open>save\<close> exactly when the cursor is at the last index.
\<close>

theorem addMemento_appends_only:
  "(\<forall>i. 0 \<le> i \<and> i < int (length (mementos h)) \<longrightarrow>
      getMemento i (addMemento s h) = getMemento i h) \<and>
   getMemento (int (length (mementos h))) (addMemento s h) = Some s \<and>
   getMemento (int (length (mementos h)) + 1) (addMemento s h) = None \<and>
   (- 1 \<le> position \<and> position < int (length (mementos h)) \<longrightarrow>
      (mementos (addMemento s h) = fst (spec_save s (mementos h, position))
       \<longleftrightarrow> position = int (length (mementos h)) - 1))"
proof -
  have old: "\<forall>i. 0 \<le> i \<and> i < int (length (mementos h)) \<longrightarrow>
      getMemento i (addMemento s h) = getMemento i h"
    by (simp add: getMemento_addMemento_old)
  have new: "getMemento (int (length (mementos h))) (addMemento s h) = Some s"
    by (rule getMemento_addMemento_new)
  have last: "getMemento (int (length (mementos h)) + 1) (addMemento s h) = None"
    by (rule getMemento_out_of_range) (simp add: mementos_addMemento)
  have cmp: "mementos (addMemento s h) = fst (spec_save s (mementos h, position))
       \<longleftrightarrow> position = int (length (mementos h)) - 1"
    if lo: "- 1 \<le> position" and hi: "position < int (length (mementos h))"
  proof
    assume eq: "mementos (addMemento s h) = fst (spec_save s (mementos h, position))"
    have "int (length (mementos (addMemento s h))) = int (length (mementos h)) + 1"
      by (simp add: mementos_addMemento)
    moreover have "int (length (fst (spec_save s (mementos h, position)))) = position + 2"
      using lo hi by (rule spec_save_length)
    ultimately show "position = int (length (mementos h)) - 1"
      using eq by simp
  next
    assume "position = int (length (mementos h)) - 1"
    then show "mementos (addMemento s h) = fst (spec_save s (mementos h, position))"
      by (simp add: spec_save_at_end mementos_addMemento)
  qed
  from old new last cmp show ?thesis by blast
qed

theorem addMemento_appends_only_witness:
  "getMemento 1 (addMemento 3 \<lparr>mementos = [1, 2]\<rparr>) = getMemento 1 \<lparr>mementos = [1, 2]\<rparr> \<and>
   getMemento 2 (addMemento 3 \<lparr>mementos = [1, 2]\<rparr>) = Some 3 \<and>
   getMemento 3 (addMemento 3 \<lparr>mementos = [1, 2]\<rparr>) = None \<and>
   mementos (addMemento 3 \<lparr>mementos = [1, 2]\<rparr>) = fst (spec_save 3 (mementos \<lparr>mementos = [1, 2]\<rparr>, 1)) \<and>
   mementos (addMemento 3 \<lparr>mementos = [1, 2]\<rparr>) \<noteq> fst (spec_save 3 (mementos \<lparr>mementos = [1, 2]\<rparr>, 0))"
  using addMemento_appends_only [of "\<lparr>mementos = [1, 2]\<rparr>" 3 1]
    addMemento_appends_only [of "\<lparr>mementos = [1, 2]\<rparr>" 3 0]
  by simp

section \<open>Properties of the mediator\<close>

lemma sendMessage_loop_deliveries:
  "deliveries (sendMessage_loop cs sender message w) =
   deliveries w @ map (\<lambda>c. (c, constructor_name sender @ '': '' @ message))
     (filter (\<lambda>c. ident c \<noteq> ident sender) cs)"
  by (induction cs arbitrary: w) simp_all

lemma count_list_recipients:
  "count_list (map fst (map (\<lambda>c. (c, x)) (filter (\<lambda>c. ident c \<noteq> k) cs))) c =
   (if ident c = k then 0 else count_list cs c)"
  by (induction cs) auto

lemma components_fold_addComponent:
  "components (fold addComponent cs this) = components this @ cs"
  by (induction cs arbitrary: this) (simp_all add: addComponent_def)

text \<open>
  Claim C7, as the specification states it: \<^verbatim>\<open>sendMessage\<close> delivers the message to all
  registered listeners, each exactly once. With a light, a thermostat and a camera
  registered, a message sent by the light reaches the thermostat and the camera only:
  the light is registered and receives nothing. With the thermostat registered twice,
  it receives the light's message twice.
\<close>

theorem sendMessage_recipients_counterexample:
  "deliveries (sendMessage \<lparr>ident = 0, cls = Light\<rparr> ''Light turned on''
     (addComponent \<lparr>ident = 2, cls = SecurityCamera\<rparr>
       (addComponent \<lparr>ident = 1, cls = Thermostat\<rparr>
         (addComponent \<lparr>ident = 0, cls = Light\<rparr> new_ConcreteHomeAutomationMediator)))
     \<lparr>console = [], deliveries = []\<rparr>) =
   [(\<lparr>ident = 1, cls = Thermostat\<rparr>, ''Light: Light turned on''),
    (\<lparr>ident = 2, cls = SecurityCamera\<rparr>, ''Light: Light turned on'')] \<and>
   deliveries (sendMessage \<lparr>ident = 0, cls = Light\<rparr> ''Light turned on''
     (addComponent \<lparr>ident = 1, cls = Thermostat\<rparr>
       (addComponent \<lparr>ident = 1, cls = Thermostat\<rparr> new_ConcreteHomeAutomationMediator))
     \<lparr>console = [], deliveries = []\<rparr>) =
   [(\<lparr>ident = 1, cls = Thermostat\<rparr>, ''Light: Light turned on''),
    (\<lparr>ident = 1, cls = Thermostat\<rparr>, ''Light: Light turned on'')]"
  by (simp add: sendMessage_def addComponent_def new_ConcreteHomeAutomationMediator_def)

text \<open>
  Claim C7, amended. Let the components \<open>cs\<close> be registered in this order. Then
  \<^verbatim>\<open>sendMessage(sender, message)\<close> calls \<^verbatim>\<open>receiveMessage\<close>, with the text made of the
  sender's class name, a colon and the message, on the registered components other
  than the sender, in registration order, once for each registration: the sender
  receives nothing, and any other component receives the text as many times as it is
  registered.
\<close>

theorem sendMessage_delivers:
  "deliveries (sendMessage sender message
       (fold addComponent cs new_ConcreteHomeAutomationMediator) w) =
     deliveries w @ map (\<lambda>c. (c, constructor_name sender @ '': '' @ message))
       (filter (\<lambda>c. ident c \<noteq> ident sender) cs) \<and>
   count_list (map fst (deliveries (sendMessage sender message
       (fold addComponent cs new_ConcreteHomeAutomationMediator) w))) c =
     count_list (map fst (deliveries w)) c +
     (if ident c = ident sender then 0 else count_list cs c)"
proof -
  have reg: "components (fold addComponent cs new_ConcreteHomeAutomationMediator) = cs"
    by (simp add: components_fold_addComponent new_ConcreteHomeAutomationMediator_def)
  have d: "deliveries (sendMessage sender message
       (fold addComponent cs new_ConcreteHomeAutomationMediator) w) =
     deliveries w @ map (\<lambda>c. (c, constructor_name sender @ '': '' @ message))
       (filter (\<lambda>c. ident c \<noteq> ident sender) cs)"
    unfolding sendMessage_def reg by (rule sendMessage_loop_deliveries)
  show ?thesis
    unfolding d by (simp add: count_list_recipients del: map_map)
qed

theorem sendMessage_delivers_witness:
  "deliveries (sendMessage \<lparr>ident = 1, cls = Thermostat\<rparr> ''Temperature increased''
     (fold addComponent [\<lparr>ident = 0, cls = Light\<rparr>, \<lparr>ident = 1, cls = Thermostat\<rparr>,
        \<lparr>ident = 2, cls = SecurityCamera\<rparr>] new_ConcreteHomeAutomationMediator)
     \<lparr>console = [], deliveries = []\<rparr>) =
   [(\<lparr>ident = 0, cls = Light\<rparr>, ''Thermostat: Temperature increased''),
    (\<lparr>ident = 2, cls = SecurityCamera\<rparr>, ''Thermostat: Temperature increased'')] \<and>
   count_list (map fst (deliveries (sendMessage \<lparr>ident = 1, cls = Thermostat\<rparr> ''Temperature increased''
     (fold addComponent [\<lparr>ident = 0, cls = Light\<rparr>, \<lparr>ident = 1, cls = Thermostat\<rparr>,
        \<lparr>ident = 2, cls = SecurityCamera\<rparr>] new_ConcreteHomeAutomationMediator)
     \<lparr>console = [], deliveries = []\<rparr>))) \<lparr>ident = 1, cls = Thermostat\<rparr> = 0"
  using sendMessage_delivers [of "\<lparr>ident = 1, cls = Thermostat\<rparr>" "''Temperature increased''"
     "[\<lparr>ident = 0, cls = Light\<rparr>, \<lparr>ident = 1, cls = Thermostat\<rparr>, \<lparr>ident = 2, cls = SecurityCamera\<rparr>]"
     "\<lparr>console = [], deliveries = []\<rparr>" "\<lparr>ident = 1, cls = Thermostat\<rparr>"]
  by simp

section \<open>Properties of the logger\<close>

text \<open>
  In every world a run can reach, either no logger has been constructed and the static
  field is \<^verbatim>\<open>null\<close>, or exactly one has been constructed and the field refers to it.
\<close>

lemma getInstance_inv:
  assumes "(Logger_instance w = None \<and> constructed w = 0) \<or>
           (Logger_instance w = Some 0 \<and> constructed w = 1)"
    and "getInstance w = (r, w')"
  shows "r = 0 \<and> Logger_instance w' = Some 0 \<and> constructed w' = 1 \<and>
         (Logger_instance w \<noteq> None \<longrightarrow> w' = w)"
  using assms by (auto simp: getInstance_def new_Logger_def)

lemma logger_run_inv:
  assumes "(Logger_instance w = None \<and> constructed w = 0) \<or>
           (Logger_instance w = Some 0 \<and> constructed w = 1)"
    and "logger_run cs w = (rs, w')"
  shows "((Logger_instance w' = None \<and> constructed w' = 0) \<or>
          (Logger_instance w' = Some 0 \<and> constructed w' = 1)) \<and>
         (\<forall>r\<in>set rs. r = 0) \<and>
         (Logger_instance w \<noteq> None \<or> rs \<noteq> [] \<longrightarrow> Logger_instance w' \<noteq> None)"
  using assms
proof (induction cs arbitrary: w rs)
  case Nil
  then show ?case by auto
next
  case (Cons c cs)
  show ?case
  proof (cases c)
    case GetInstance
    from Cons.prems(2) GetInstance obtain r w1 rs1 where
      g: "getInstance w = (r, w1)" and run: "logger_run cs w1 = (rs1, w')" and rs: "rs = r # rs1"
      by (auto split: prod.splits)
    from getInstance_inv [OF Cons.prems(1) g]
    have r0: "r = 0" and inst1: "Logger_instance w1 = Some 0" and con1: "constructed w1 = 1"
      by simp_all
    from inst1 con1 have "(Logger_instance w1 = None \<and> constructed w1 = 0) \<or>
           (Logger_instance w1 = Some 0 \<and> constructed w1 = 1)" by simp
    from Cons.IH [OF this run] inst1 r0 rs show ?thesis by simp
  next
    case (Log this message)
    from Cons.prems(1) have inv: "(Logger_instance (log this message w) = None \<and>
            constructed (log this message w) = 0) \<or>
           (Logger_instance (log this message w) = Some 0 \<and>
            constructed (log this message w) = 1)"
      by (simp add: log_def)
    from Cons.prems(2) Log have run: "logger_run cs (log this message w) = (rs, w')"
      by simp
    from Cons.IH [OF inv run] show ?thesis by (simp add: log_def)
  qed
qed

text \<open>
  Claim C10. Take any single-threaded execution \<open>cs\<close> from the initial world, in which
  the \<^verbatim>\<open>getInstance\<close> calls returned \<open>rs\<close>, and one more call of \<^verbatim>\<open>getInstance\<close> after it,
  returning \<open>r\<close>. At most one \<^verbatim>\<open>Logger\<close> has been constructed before the call and exactly
  one after it; every earlier call returned the same object \<open>r\<close>; and when there was
  an earlier call, this call leaves the world unchanged, so it constructs nothing.
\<close>

theorem getInstance_singleton:
  assumes "logger_run cs initial_world = (rs, w)" and "getInstance w = (r, w')"
  shows "constructed w \<le> 1 \<and> constructed w' = 1 \<and>
         (\<forall>r0\<in>set rs. r0 = r) \<and> (rs \<noteq> [] \<longrightarrow> w' = w)"
proof -
  have init: "(Logger_instance initial_world = None \<and> constructed initial_world = 0) \<or>
           (Logger_instance initial_world = Some 0 \<and> constructed initial_world = 1)"
    by (simp add: initial_world_def)
  from logger_run_inv [OF init assms(1)]
  have inv: "(Logger_instance w = None \<and> constructed w = 0) \<or>
          (Logger_instance w = Some 0 \<and> constructed w = 1)"
    and results: "\<forall>r\<in>set rs. r = 0"
    and made: "rs \<noteq> [] \<longrightarrow> Logger_instance w \<noteq> None"
    by simp_all
  from getInstance_inv [OF inv assms(2)]
  have "r = 0" and "constructed w' = 1" and "Logger_instance w \<noteq> None \<longrightarrow> w' = w"
    by simp_all
  with inv results made show ?thesis by auto
qed

theorem getInstance_singleton_witness:
  "logger_run [GetInstance, Log 0 ''This message will be logged.'', GetInstance,
      Log 0 ''Another log entry.''] initial_world =
     ([0, 0], \<lparr>Logger_instance = Some 0, constructed = 1,
        log_lines = [''[LOG] This message will be logged.'', ''[LOG] Another log entry.'']\<rparr>) \<and>
   getInstance \<lparr>Logger_instance = Some 0, constructed = 1,
        log_lines = [''[LOG] This message will be logged.'', ''[LOG] Another log entry.'']\<rparr> =
     (0, \<lparr>Logger_instance = Some 0, constructed = 1,
        log_lines = [''[LOG] This message will be logged.'', ''[LOG] Another log entry.'']\<rparr>) \<and>
   constructed \<lparr>Logger_instance = Some 0, constructed = 1,
        log_lines = [''[LOG] This message will be logged.'', ''[LOG] Another log entry.'']\<rparr> = 1"
proof -
  have run: "logger_run [GetInstance, Log 0 ''This message will be logged.'', GetInstance,
      Log 0 ''Another log entry.''] initial_world =
     ([0, 0], \<lparr>Logger_instance = Some 0, constructed = 1,
        log_lines = [''[LOG] This message will be logged.'', ''[LOG] Another log entry.'']\<rparr>)"
    by (simp add: initial_world_def getInstance_def new_Logger_def log_def)
  have get: "getInstance \<lparr>Logger_instance = Some 0, constructed = 1,
        log_lines = [''[LOG] This message will be logged.'', ''[LOG] Another log entry.'']\<rparr> =
     (0, \<lparr>Logger_instance = Some 0, constructed = 1,
        log_lines = [''[LOG] This message will be logged.'', ''[LOG] Another log entry.'']\<rparr>)"
    by (simp add: getInstance_def)
  from getInstance_singleton [OF run get] run get show ?thesis by simp
qed

end
